theory Spec2Isabelle
  imports Complex_Main
begin

section \<open>HoverVideoPlayer: the play/pause coordinator of src/src/HoverVideoPlayer.js\<close>

text \<open>
  The component keeps one piece of React state (\<open>overlayState\<close>), one mutable ref with
  the state of the play attempt (\<open>mutablePlayAttemptState.current\<close>), two timer refs and a
  ref to the video element. The handlers \<open>playVideo\<close>, \<open>pauseVideo\<close>, \<open>onHoverStart\<close>
  and \<open>onHoverEnd\<close> mutate them; here each handler takes the state and returns the new one.
  JavaScript runs one task at a time and drains the promise reactions before the next task,
  so a handler call, a timer firing, a media event and the settling of the play promise
  (with the reactions attached to it) are each one atomic step.

  \<open>videoRef.current\<close> is taken to hold the video element whenever a handler runs; the
  handlers read it without a check.
\<close>

subsection \<open>Data\<close>

text \<open>\<open>HOVER_PLAYER_STATE\<close> (lines 13-17).\<close>

datatype hover_player_state = paused | loading | playing

text \<open>
  \<open>VIDEO_STATE\<close> and \<open>getVideoState\<close> are imported from \<open>./utils\<close>, which is not among
  the sources. The handlers compare the result of \<open>getVideoState(videoRef.current)\<close> with
  \<open>VIDEO_STATE.playing\<close> and \<open>VIDEO_STATE.paused\<close> only, so the value the element
  reports at a call is an input of that call: \<open>VIDEO_other\<close> stands for any third value.
\<close>

datatype video_state = VIDEO_paused | VIDEO_playing | VIDEO_other

text \<open>The props the handlers read (lines 68-85), overlays by whether they are truthy.\<close>

record props =
  isFocused :: bool
  pausedOverlay :: bool
  loadingOverlay :: bool
  loadingStateTimeoutDuration :: nat
  overlayFadeTransitionDuration :: nat
  shouldRestartOnVideoStopped :: bool

definition defaultProps :: props where
  "defaultProps =
     \<lparr>isFocused = False, pausedOverlay = False, loadingOverlay = False,
      loadingStateTimeoutDuration = 200, overlayFadeTransitionDuration = 400,
      shouldRestartOnVideoStopped = True\<rparr>"

text \<open>
  A promise is an entry of a store, named by its index. \<open>native\<close> tells a promise that
  \<open>videoElement.play()\<close> returned (the browser settles it) from one that \<open>playVideo\<close> made
  itself (only its two event listeners settle it); \<open>reactions\<close> tells whether
  \<open>onHoverStart\<close> has chained its \<open>.catch(...).then(...)\<close> to it.
\<close>

datatype settlement = Pending | Fulfilled | Rejected string

record promise =
  settled :: settlement
  native :: bool
  reactions :: bool

text \<open>
  The video element: what \<open>play()\<close> returns (a thenable or not), how often \<open>play()\<close> and
  \<open>pause()\<close> were called, \<open>currentTime\<close>, \<open>currentSrc\<close>, and the listeners that
  \<open>playVideo\<close> registered for \<open>'playing'\<close> and \<open>'error'\<close>, each named by the promise it
  settles, in the order of registration.
\<close>

record video_element =
  playReturnsThenable :: bool
  playCalls :: nat
  pauseCalls :: nat
  currentTime :: real
  currentSrc :: string
  playingListeners :: "nat list"
  errorListeners :: "nat list"

text \<open>
  The component instance. A timer ref is \<open>Some d\<close> while a timer set with delay \<open>d\<close> is
  pending and \<open>None\<close> once it was cleared or has fired.
\<close>

record player =
  overlayState :: hover_player_state
  playPromise :: nat
  isPlayAttemptInProgress :: bool
  isPlayAttemptCancelled :: bool
  pauseTimeout :: "nat option"
  loadingStateTimeout :: "nat option"
  video :: video_element
  promises :: "promise list"
  consoleErrors :: "string list"

text \<open>
  The state after the first render (lines 87-102): \<open>overlayState\<close> is \<open>paused\<close>, the play
  promise is \<open>Promise.resolve()\<close> (promise 0, fulfilled, no reactions), no attempt, no timer.
\<close>

definition mount :: "video_element \<Rightarrow> player" where
  "mount v =
     \<lparr>overlayState = paused, playPromise = 0,
      isPlayAttemptInProgress = False, isPlayAttemptCancelled = False,
      pauseTimeout = None, loadingStateTimeout = None, video = v,
      promises = [\<lparr>settled = Fulfilled, native = True, reactions = False\<rparr>],
      consoleErrors = []\<rparr>"

definition freshVideo :: "bool \<Rightarrow> string \<Rightarrow> video_element" where
  "freshVideo thenable url =
     \<lparr>playReturnsThenable = thenable, playCalls = 0, pauseCalls = 0, currentTime = 0,
      currentSrc = url, playingListeners = [], errorListeners = []\<rparr>"

subsection \<open>playVideo and pauseVideo\<close>

text \<open>
  \<open>playVideo\<close> (lines 118-150): marks the attempt in progress, calls \<open>play()\<close>, and when
  the result is not a thenable makes a promise of its own with a \<open>'playing'\<close> and an
  \<open>'error'\<close> listener. It stores the promise in the ref and returns it.
\<close>

definition playVideo :: "player \<Rightarrow> nat \<times> player" where
  "playVideo s =
     (let s1 = s\<lparr>isPlayAttemptInProgress := True\<rparr>;
          v = (video s1)\<lparr>playCalls := Suc (playCalls (video s1))\<rparr>;
          pid = length (promises s1)
      in if playReturnsThenable v
         then (pid, s1\<lparr>video := v,
                 promises := promises s1 @ [\<lparr>settled = Pending, native = True, reactions = False\<rparr>],
                 playPromise := pid\<rparr>)
         else (pid, s1\<lparr>video := v\<lparr>playingListeners := playingListeners v @ [pid],
                                    errorListeners := errorListeners v @ [pid]\<rparr>,
                 promises := promises s1 @ [\<lparr>settled = Pending, native = False, reactions = False\<rparr>],
                 playPromise := pid\<rparr>))"

text \<open>\<open>pauseVideo\<close> (lines 158-173).\<close>

definition pauseVideo :: "props \<Rightarrow> player \<Rightarrow> player" where
  "pauseVideo p s =
     (if isPlayAttemptInProgress s then s\<lparr>isPlayAttemptCancelled := True\<rparr>
      else let v = (video s)\<lparr>pauseCalls := Suc (pauseCalls (video s))\<rparr>
           in if shouldRestartOnVideoStopped p then s\<lparr>video := v\<lparr>currentTime := 0\<rparr>\<rparr>
              else s\<lparr>video := v\<rparr>)"

subsection \<open>The reactions to the play promise\<close>

text \<open>The \<open>.catch\<close> callback of lines 208-218, called with the rejection's error.\<close>

definition playCatch :: "props \<Rightarrow> string \<Rightarrow> player \<Rightarrow> player" where
  "playCatch p err s =
     pauseVideo p
       (s\<lparr>isPlayAttemptInProgress := False, loadingStateTimeout := None,
          consoleErrors := consoleErrors s @
            [''HoverVideoPlayer playback failed for src '' @ currentSrc (video s) @ '': '' @ err]\<rparr>)"

text \<open>The \<open>.then\<close> callback of lines 219-231.\<close>

definition playThen :: "props \<Rightarrow> player \<Rightarrow> player" where
  "playThen p s =
     (let s1 = s\<lparr>isPlayAttemptInProgress := False, loadingStateTimeout := None\<rparr>
      in if isPlayAttemptCancelled s1
         then pauseVideo p (s1\<lparr>isPlayAttemptCancelled := False\<rparr>)
         else s1\<lparr>overlayState := playing\<rparr>)"

text \<open>
  The chain is \<open>playVideo().catch(f).then(g)\<close>: \<open>g\<close> is chained to the promise that
  \<open>.catch(f)\<close> returns. When the play promise is fulfilled \<open>f\<close> is skipped and \<open>g\<close> runs;
  when it is rejected \<open>f\<close> runs, returns normally, the promise of \<open>.catch(f)\<close> is fulfilled
  with \<open>undefined\<close>, and \<open>g\<close> runs after it.
\<close>

datatype outcome = Resolve | Reject string

definition runReactions :: "props \<Rightarrow> outcome \<Rightarrow> player \<Rightarrow> player" where
  "runReactions p out s =
     (case out of
        Resolve \<Rightarrow> playThen p s
      | Reject err \<Rightarrow> playThen p (playCatch p err s))"

definition settlementOf :: "outcome \<Rightarrow> settlement" where
  "settlementOf out = (case out of Resolve \<Rightarrow> Fulfilled | Reject err \<Rightarrow> Rejected err)"

text \<open>
  Settling promise \<open>pid\<close>: nothing happens unless it is pending (a promise settles once);
  then its state is set and, when the chain is attached, the reactions run.
\<close>

definition settle :: "props \<Rightarrow> nat \<Rightarrow> outcome \<Rightarrow> player \<Rightarrow> player" where
  "settle p pid out s =
     (if pid < length (promises s) \<and> settled (promises s ! pid) = Pending
      then let q = promises s ! pid;
               s1 = s\<lparr>promises := (promises s)[pid := q\<lparr>settled := settlementOf out\<rparr>]\<rparr>
           in if reactions q then runReactions p out s1 else s1
      else s)"

subsection \<open>onHoverStart and onHoverEnd\<close>

text \<open>
  \<open>onHoverStart\<close> (lines 180-232); \<open>vs\<close> is what \<open>getVideoState(videoRef.current)\<close>
  returns at line 189.
\<close>

definition onHoverStart :: "props \<Rightarrow> video_state \<Rightarrow> player \<Rightarrow> player" where
  "onHoverStart p vs s =
     (let s1 = s\<lparr>pauseTimeout := None, loadingStateTimeout := None,
                 isPlayAttemptCancelled := False\<rparr>
      in if vs = VIDEO_playing then s1\<lparr>overlayState := playing\<rparr>
         else let s2 = (if loadingOverlay p
                        then s1\<lparr>loadingStateTimeout := Some (loadingStateTimeoutDuration p)\<rparr>
                        else s1)
              in if isPlayAttemptInProgress s2 then s2
                 else let (pid, s3) = playVideo s2
                      in s3\<lparr>promises := (promises s3)[pid := (promises s3 ! pid)\<lparr>reactions := True\<rparr>]\<rparr>)"

text \<open>
  \<open>onHoverEnd\<close> (lines 239-259); \<open>vs\<close> is what \<open>getVideoState(videoRef.current)\<close> returns
  at line 246.
\<close>

definition onHoverEnd :: "props \<Rightarrow> video_state \<Rightarrow> player \<Rightarrow> player" where
  "onHoverEnd p vs s =
     (let s1 = s\<lparr>loadingStateTimeout := None, pauseTimeout := None\<rparr>
      in if isFocused p \<or> vs = VIDEO_paused then s1
         else s1\<lparr>overlayState := paused,
                 pauseTimeout := Some (if pausedOverlay p then overlayFadeTransitionDuration p else 0)\<rparr>)"

subsection \<open>Timers, media events, unmount\<close>

text \<open>The callback of the loading-state timer (lines 197-201), when that timer fires.\<close>

definition loadingStateTimeoutFires :: "player \<Rightarrow> player" where
  "loadingStateTimeoutFires s =
     (case loadingStateTimeout s of
        None \<Rightarrow> s
      | Some d \<Rightarrow> s\<lparr>loadingStateTimeout := None, overlayState := loading\<rparr>)"

text \<open>The callback of the pause timer (line 255), when that timer fires.\<close>

definition pauseTimeoutFires :: "props \<Rightarrow> player \<Rightarrow> player" where
  "pauseTimeoutFires p s =
     (case pauseTimeout s of
        None \<Rightarrow> s
      | Some d \<Rightarrow> pauseVideo p (s\<lparr>pauseTimeout := None\<rparr>))"

text \<open>
  \<open>onVideoPlaybackStarted\<close> (lines 132-135) and \<open>onVideoPlaybackFailed\<close> (lines 139-142),
  the listeners of the promise \<open>pid\<close> that \<open>playVideo\<close> made: each settles the promise and
  removes itself.
\<close>

definition onVideoPlaybackStarted :: "props \<Rightarrow> player \<Rightarrow> nat \<Rightarrow> player" where
  "onVideoPlaybackStarted p s pid =
     (let s1 = settle p pid Resolve s
      in s1\<lparr>video := (video s1)\<lparr>playingListeners := remove1 pid (playingListeners (video s1))\<rparr>\<rparr>)"

definition onVideoPlaybackFailed :: "props \<Rightarrow> string \<Rightarrow> player \<Rightarrow> nat \<Rightarrow> player" where
  "onVideoPlaybackFailed p err s pid =
     (let s1 = settle p pid (Reject err) s
      in s1\<lparr>video := (video s1)\<lparr>errorListeners := remove1 pid (errorListeners (video s1))\<rparr>\<rparr>)"

text \<open>
  The element fires \<open>'playing'\<close>, or \<open>'error'\<close> with \<open>event.error = err\<close>: the listeners
  registered at that moment run in the order of registration.
\<close>

definition firePlaying :: "props \<Rightarrow> player \<Rightarrow> player" where
  "firePlaying p s = foldl (onVideoPlaybackStarted p) s (playingListeners (video s))"

definition fireError :: "props \<Rightarrow> string \<Rightarrow> player \<Rightarrow> player" where
  "fireError p err s = foldl (onVideoPlaybackFailed p err) s (errorListeners (video s))"

text \<open>
  The cleanup of the effect of lines 295-306, run when the component unmounts. React
  itself also detaches \<open>videoRef\<close> then, which is not the source's doing; the model keeps
  the element. The only reader of the ref that can still run afterwards is \<open>pauseVideo\<close>,
  called by a reaction, and it writes the video, never the phase.
\<close>

definition unmount :: "player \<Rightarrow> player" where
  "unmount s =
     s\<lparr>loadingStateTimeout := None, pauseTimeout := None, isPlayAttemptCancelled := True\<rparr>"

subsection \<open>Event sequences\<close>

text \<open>
  What the environment delivers, in its order. \<open>HoverStart\<close> is any call of
  \<open>onHoverStart\<close> (mouse enter, focus, touch start, or the effect of lines 262-272 when
  \<open>isFocused\<close> became true) and \<open>HoverEnd\<close> any call of \<open>onHoverEnd\<close> (mouse out, blur,
  a touch outside the container, or that effect when \<open>isFocused\<close> is false), each with
  the video state the element reports at that call. A timer event does nothing when no
  such timer is pending, and the browser settles only promises that \<open>play()\<close> returned.
\<close>

datatype event =
    HoverStart video_state
  | HoverEnd video_state
  | LoadingStateTimeout
  | PauseTimeout
  | PlaySettled nat outcome
  | MediaPlaying
  | MediaError string
  | Unmount

fun step :: "props \<Rightarrow> player \<Rightarrow> event \<Rightarrow> player" where
  "step p s (HoverStart vs) = onHoverStart p vs s"
| "step p s (HoverEnd vs) = onHoverEnd p vs s"
| "step p s LoadingStateTimeout = loadingStateTimeoutFires s"
| "step p s PauseTimeout = pauseTimeoutFires p s"
| "step p s (PlaySettled pid out) =
     (if pid < length (promises s) \<and> native (promises s ! pid) then settle p pid out s else s)"
| "step p s MediaPlaying = firePlaying p s"
| "step p s (MediaError err) = fireError p err s"
| "step p s Unmount = unmount s"

definition run :: "props \<Rightarrow> player \<Rightarrow> event list \<Rightarrow> player" where
  "run p s es = foldl (step p) s es"

text \<open>The phase after each event of a sequence.\<close>

fun phases :: "props \<Rightarrow> player \<Rightarrow> event list \<Rightarrow> hover_player_state list" where
  "phases p s [] = []"
| "phases p s (e # es) = overlayState (step p s e) # phases p (step p s e) es"

text \<open>
  The states the component can be in: the mounted state and every state an event leads to.
  The props may differ from step to step (a re-render changes them, and a callback that is
  still pending keeps the props of the render that made it).
\<close>

inductive reachable :: "player \<Rightarrow> bool" where
  reachable_mount: "reachable (mount (freshVideo thenable url))"
| reachable_step: "reachable s \<Longrightarrow> reachable (step p s e)"

text \<open>The play attempts in progress: the pending promises that carry the reactions.\<close>

definition attemptInProgress :: "player \<Rightarrow> nat \<Rightarrow> bool" where
  "attemptInProgress s i \<longleftrightarrow>
     i < length (promises s) \<and> settled (promises s ! i) = Pending \<and> reactions (promises s ! i)"

definition attemptsInProgress :: "player \<Rightarrow> nat list" where
  "attemptsInProgress s = filter (attemptInProgress s) [0..<length (promises s)]"

text \<open>
  Events that neither start nor settle an attempt: a hover-end and the firing of a timer.
\<close>

fun hoverEndOrTimer :: "event \<Rightarrow> bool" where
  "hoverEndOrTimer (HoverEnd vs) = True"
| "hoverEndOrTimer LoadingStateTimeout = True"
| "hoverEndOrTimer PauseTimeout = True"
| "hoverEndOrTimer e = False"

fun isHover :: "event \<Rightarrow> bool" where
  "isHover (HoverStart vs) = True"
| "isHover (HoverEnd vs) = True"
| "isHover e = False"

fun isHoverStart :: "event \<Rightarrow> bool" where
  "isHoverStart (HoverStart vs) = True"
| "isHoverStart e = False"

subsection \<open>The asset parser\<close>

text \<open>
  The props \<open>videoSrc\<close> and \<open>videoCaptions\<close> (lines 35-47): a string, an object, or an
  array of strings and objects. The canonical shapes are \<open>VideoSource\<close> (lines 19-23) and
  \<open>VideoCaptionsTrack\<close> (lines 25-30); a field the input does not give is \<open>undefined\<close>.
\<close>

datatype source_input = SourceString string | SourceObject string "string option"

datatype captions_input =
  CaptionsString string | CaptionsObject string "string option" "string option"

datatype 'a asset_prop = Single 'a | Array "'a list"

record VideoSource =
  src :: string
  type :: "string option"

record VideoCaptionsTrack =
  trackSrc :: string
  srcLang :: "string option"
  label :: "string option"

fun sourceUrl :: "source_input \<Rightarrow> string" where
  "sourceUrl (SourceString u) = u"
| "sourceUrl (SourceObject u t) = u"

fun captionsUrl :: "captions_input \<Rightarrow> string" where
  "captionsUrl (CaptionsString u) = u"
| "captionsUrl (CaptionsObject u l n) = u"

text \<open>
  Modelled from the spec: \<open>formatVideoSrc\<close> and \<open>formatVideoCaptions\<close> are imported from
  \<open>./utils\<close> (lines 4-9) and called at lines 311 and 318; their bodies are not among the
  sources. The spec: "string \<open>\<rightarrow>\<close> one-element list; object \<open>\<rightarrow>\<close> one-element list; array
  \<open>\<rightarrow>\<close> pass-through, elements normalized", to "ordered sequences of \<open>{src, type?}\<close> /
  \<open>{src, srcLang, label}\<close>".
\<close>

fun normalizeSource :: "source_input \<Rightarrow> VideoSource" where
  "normalizeSource (SourceString u) = \<lparr>src = u, type = None\<rparr>"
| "normalizeSource (SourceObject u t) = \<lparr>src = u, type = t\<rparr>"

fun normalizeCaptions :: "captions_input \<Rightarrow> VideoCaptionsTrack" where
  "normalizeCaptions (CaptionsString u) = \<lparr>trackSrc = u, srcLang = None, label = None\<rparr>"
| "normalizeCaptions (CaptionsObject u l n) = \<lparr>trackSrc = u, srcLang = l, label = n\<rparr>"

fun formatVideoSrc :: "source_input asset_prop \<Rightarrow> VideoSource list" where
  "formatVideoSrc (Single x) = [normalizeSource x]"
| "formatVideoSrc (Array xs) = map normalizeSource xs"

fun formatVideoCaptions :: "captions_input asset_prop \<Rightarrow> VideoCaptionsTrack list" where
  "formatVideoCaptions (Single x) = [normalizeCaptions x]"
| "formatVideoCaptions (Array xs) = map normalizeCaptions xs"

subsection \<open>Invariants, used in the proofs only\<close>

text \<open>
  The flag \<open>isPlayAttemptInProgress\<close> tracks the attempts: an attempt in progress is the
  promise in \<open>playPromise\<close>, and the flag is set exactly when there is one.
\<close>

definition trackedInv :: "player \<Rightarrow> bool" where
  "trackedInv s \<longleftrightarrow>
     (\<forall>i. attemptInProgress s i \<longrightarrow> isPlayAttemptInProgress s \<and> i = playPromise s) \<and>
     (isPlayAttemptInProgress s \<longrightarrow> attemptInProgress s (playPromise s))"

text \<open>Every attempt in progress is the current one, and it is marked cancelled.\<close>

definition cancelledInv :: "player \<Rightarrow> bool" where
  "cancelledInv s \<longleftrightarrow>
     (\<forall>i. attemptInProgress s i \<longrightarrow>
        isPlayAttemptCancelled s \<and> isPlayAttemptInProgress s \<and> i = playPromise s)"

text \<open>
  After the cleanup: what \<open>cancelledInv\<close> says, no timer pending, and the phase \<open>c\<close>.
\<close>

definition tornDown :: "hover_player_state \<Rightarrow> player \<Rightarrow> bool" where
  "tornDown c s \<longleftrightarrow>
     cancelledInv s \<and> loadingStateTimeout s = None \<and> pauseTimeout s = None \<and> overlayState s = c"

text \<open>
  An attempt \<open>pid\<close> in progress that \<open>pauseVideo\<close> has marked cancelled, while the phase
  is \<open>paused\<close> and no loading-state timer is pending.
\<close>

definition awaitingCancelled :: "nat \<Rightarrow> player \<Rightarrow> bool" where
  "awaitingCancelled pid s \<longleftrightarrow>
     attemptInProgress s pid \<and> isPlayAttemptInProgress s \<and> isPlayAttemptCancelled s \<and>
     overlayState s = paused \<and> loadingStateTimeout s = None"

text \<open>No loading-state timer is pending and the phase is not \<open>loading\<close>.\<close>

definition loadingOff :: "player \<Rightarrow> bool" where
  "loadingOff s \<longleftrightarrow> loadingStateTimeout s = None \<and> overlayState s \<noteq> loading"

subsection \<open>Props of the examples\<close>

text \<open>The forced-play override set, and both overlays given.\<close>

definition focusedProps :: props where
  "focusedProps = defaultProps\<lparr>isFocused := True\<rparr>"

definition overlayProps :: props where
  "overlayProps = defaultProps\<lparr>pausedOverlay := True, loadingOverlay := True\<rparr>"

section \<open>Properties\<close>

subsection \<open>What the handlers leave alone\<close>

lemma pauseVideo_keeps [simp]:
  "promises (pauseVideo p s) = promises s"
  "overlayState (pauseVideo p s) = overlayState s"
  "playPromise (pauseVideo p s) = playPromise s"
  "isPlayAttemptInProgress (pauseVideo p s) = isPlayAttemptInProgress s"
  "loadingStateTimeout (pauseVideo p s) = loadingStateTimeout s"
  "pauseTimeout (pauseVideo p s) = pauseTimeout s"
  "playCalls (video (pauseVideo p s)) = playCalls (video s)"
  "playingListeners (video (pauseVideo p s)) = playingListeners (video s)"
  "errorListeners (video (pauseVideo p s)) = errorListeners (video s)"
  by (simp_all add: pauseVideo_def Let_def)

lemma playThen_keeps [simp]:
  "promises (playThen p s) = promises s"
  "playPromise (playThen p s) = playPromise s"
  "isPlayAttemptInProgress (playThen p s) = False"
  "loadingStateTimeout (playThen p s) = None"
  "pauseTimeout (playThen p s) = pauseTimeout s"
  "playCalls (video (playThen p s)) = playCalls (video s)"
  "playingListeners (video (playThen p s)) = playingListeners (video s)"
  "errorListeners (video (playThen p s)) = errorListeners (video s)"
  by (simp_all add: playThen_def Let_def)

lemma playCatch_keeps [simp]:
  "promises (playCatch p err s) = promises s"
  "overlayState (playCatch p err s) = overlayState s"
  "playPromise (playCatch p err s) = playPromise s"
  "isPlayAttemptInProgress (playCatch p err s) = False"
  "isPlayAttemptCancelled (playCatch p err s) = isPlayAttemptCancelled s"
  "loadingStateTimeout (playCatch p err s) = None"
  "pauseTimeout (playCatch p err s) = pauseTimeout s"
  "playCalls (video (playCatch p err s)) = playCalls (video s)"
  "playingListeners (video (playCatch p err s)) = playingListeners (video s)"
  "errorListeners (video (playCatch p err s)) = errorListeners (video s)"
  by (simp_all add: playCatch_def pauseVideo_def Let_def)

lemma runReactions_keeps [simp]:
  "promises (runReactions p out s) = promises s"
  "playPromise (runReactions p out s) = playPromise s"
  "isPlayAttemptInProgress (runReactions p out s) = False"
  "loadingStateTimeout (runReactions p out s) = None"
  "pauseTimeout (runReactions p out s) = pauseTimeout s"
  "playCalls (video (runReactions p out s)) = playCalls (video s)"
  "playingListeners (video (runReactions p out s)) = playingListeners (video s)"
  "errorListeners (video (runReactions p out s)) = errorListeners (video s)"
  by (simp_all add: runReactions_def split: outcome.splits)

lemma overlayState_playThen:
  "overlayState (playThen p s) = (if isPlayAttemptCancelled s then overlayState s else playing)"
  by (simp add: playThen_def Let_def)

lemma overlayState_runReactions:
  "overlayState (runReactions p out s) =
     (if isPlayAttemptCancelled s then overlayState s else playing)"
  by (simp add: runReactions_def overlayState_playThen split: outcome.splits)

lemma promises_settle:
  "promises (settle p pid out s) =
     (if pid < length (promises s) \<and> settled (promises s ! pid) = Pending
      then (promises s)[pid := (promises s ! pid)\<lparr>settled := settlementOf out\<rparr>]
      else promises s)"
  by (simp add: settle_def Let_def)

lemma length_promises_settle [simp]:
  "length (promises (settle p pid out s)) = length (promises s)"
  by (simp add: promises_settle)

lemma settle_keeps [simp]:
  "playPromise (settle p pid out s) = playPromise s"
  "pauseTimeout (settle p pid out s) = pauseTimeout s"
  "playCalls (video (settle p pid out s)) = playCalls (video s)"
  "playingListeners (video (settle p pid out s)) = playingListeners (video s)"
  "errorListeners (video (settle p pid out s)) = errorListeners (video s)"
  by (simp_all add: settle_def Let_def)

subsection \<open>Settling a promise\<close>

lemma settlementOf_not_Pending [simp]: "settlementOf out \<noteq> Pending"
  by (simp add: settlementOf_def split: outcome.splits)

lemma attemptInProgress_settle:
  "attemptInProgress (settle p pid out s) i \<longleftrightarrow> attemptInProgress s i \<and> i \<noteq> pid"
  by (auto simp: attemptInProgress_def promises_settle nth_list_update)

lemma isPlayAttemptInProgress_settle:
  "isPlayAttemptInProgress (settle p pid out s) =
     (if attemptInProgress s pid then False else isPlayAttemptInProgress s)"
  by (simp add: settle_def Let_def attemptInProgress_def)

lemma settled_settle:
  "i < length (promises s) \<Longrightarrow>
   settled (promises (settle p pid out s) ! i) =
     (if i = pid \<and> settled (promises s ! i) = Pending then settlementOf out
      else settled (promises s ! i))"
  by (auto simp: promises_settle nth_list_update)

lemma overlayState_settle:
  "overlayState (settle p pid out s) =
     (if attemptInProgress s pid \<and> \<not> isPlayAttemptCancelled s then playing else overlayState s)"
  by (auto simp: settle_def Let_def attemptInProgress_def overlayState_runReactions)

lemma loadingStateTimeout_settle:
  "loadingStateTimeout s = None \<Longrightarrow> loadingStateTimeout (settle p pid out s) = None"
  by (simp add: settle_def Let_def)

lemma isPlayAttemptCancelled_runReactions [simp]:
  "isPlayAttemptCancelled (runReactions p out s) = False"
  by (simp add: runReactions_def playThen_def playCatch_def pauseVideo_def Let_def
      split: outcome.splits)

lemma isPlayAttemptCancelled_settle:
  "isPlayAttemptCancelled (settle p pid out s) =
     (if attemptInProgress s pid then False else isPlayAttemptCancelled s)"
  by (simp add: settle_def Let_def attemptInProgress_def)

lemma foldl_preserves:
  "(\<And>s x. P s \<Longrightarrow> P (f s x)) \<Longrightarrow> P s \<Longrightarrow> P (foldl f s xs)"
  by (induction xs arbitrary: s) auto

subsection \<open>At most one attempt\<close>

lemma trackedInv_settle: "trackedInv s \<Longrightarrow> trackedInv (settle p pid out s)"
  unfolding trackedInv_def
  by (auto simp: attemptInProgress_settle isPlayAttemptInProgress_settle)

lemma trackedInv_mount: "trackedInv (mount v)"
  by (auto simp: trackedInv_def mount_def attemptInProgress_def)

lemma trackedInv_onHoverEnd: "trackedInv s \<Longrightarrow> trackedInv (onHoverEnd p vs s)"
  by (simp add: trackedInv_def onHoverEnd_def Let_def attemptInProgress_def)

lemma trackedInv_unmount: "trackedInv s \<Longrightarrow> trackedInv (unmount s)"
  by (simp add: trackedInv_def unmount_def attemptInProgress_def)

lemma trackedInv_loadingStateTimeoutFires:
  "trackedInv s \<Longrightarrow> trackedInv (loadingStateTimeoutFires s)"
  by (simp add: trackedInv_def loadingStateTimeoutFires_def attemptInProgress_def
      split: option.splits)

lemma trackedInv_pauseTimeoutFires: "trackedInv s \<Longrightarrow> trackedInv (pauseTimeoutFires p s)"
  by (simp add: trackedInv_def pauseTimeoutFires_def attemptInProgress_def split: option.splits)

lemma trackedInv_onHoverStart: "trackedInv s \<Longrightarrow> trackedInv (onHoverStart p vs s)"
  unfolding trackedInv_def
  by (auto simp: onHoverStart_def playVideo_def Let_def attemptInProgress_def nth_append
      nth_list_update split: if_splits)

lemma trackedInv_onVideoPlaybackStarted:
  "trackedInv s \<Longrightarrow> trackedInv (onVideoPlaybackStarted p s pid)"
  using trackedInv_settle [of s p pid Resolve]
  by (simp add: onVideoPlaybackStarted_def Let_def trackedInv_def attemptInProgress_def)

lemma trackedInv_onVideoPlaybackFailed:
  "trackedInv s \<Longrightarrow> trackedInv (onVideoPlaybackFailed p err s pid)"
  using trackedInv_settle [of s p pid "Reject err"]
  by (simp add: onVideoPlaybackFailed_def Let_def trackedInv_def attemptInProgress_def)

lemma trackedInv_step: "trackedInv s \<Longrightarrow> trackedInv (step p s e)"
  by (cases e)
     (auto simp: firePlaying_def fireError_def
       intro: trackedInv_onHoverStart trackedInv_onHoverEnd trackedInv_loadingStateTimeoutFires
         trackedInv_pauseTimeoutFires trackedInv_settle trackedInv_unmount foldl_preserves
         trackedInv_onVideoPlaybackStarted trackedInv_onVideoPlaybackFailed)

lemma reachable_trackedInv: "reachable s \<Longrightarrow> trackedInv s"
  by (induction rule: reachable.induct) (auto intro: trackedInv_mount trackedInv_step)

lemma filter_eq_upt: "filter (\<lambda>i. i = k) [0..<n] = (if k < n then [k] else [])"
  by (induction n) auto

lemma filter_upt_single:
  assumes "\<And>i. P i \<Longrightarrow> i = k" "P k" "k < n"
  shows "filter P [0..<n] = [k]"
proof -
  have "P = (\<lambda>i. i = k)" using assms(1,2) by blast
  then show ?thesis using assms(3) by (simp only: filter_eq_upt if_True)
qed

lemma attemptsInProgress_tracked:
  assumes "trackedInv s"
  shows "attemptsInProgress s = (if isPlayAttemptInProgress s then [playPromise s] else [])"
proof (cases "isPlayAttemptInProgress s")
  case True
  with assms have cur: "attemptInProgress s (playPromise s)"
    and only: "\<And>i. attemptInProgress s i \<Longrightarrow> i = playPromise s"
    by (simp_all add: trackedInv_def)
  from cur have "playPromise s < length (promises s)"
    by (simp add: attemptInProgress_def)
  with only cur have "filter (attemptInProgress s) [0..<length (promises s)] = [playPromise s]"
    by (rule filter_upt_single)
  with True show ?thesis by (simp add: attemptsInProgress_def)
next
  case False
  with assms have "\<And>i. \<not> attemptInProgress s i"
    by (auto simp: trackedInv_def)
  with False show ?thesis by (simp add: attemptsInProgress_def)
qed

text \<open>
  \<^bold>\<open>C3.\<close> In every reachable state at most one play attempt is in progress, and it is
  the promise in \<open>playPromise\<close> exactly when \<open>isPlayAttemptInProgress\<close> is set. A call of
  \<open>onHoverStart\<close> while the flag is set does not call \<open>play()\<close> again and makes no new
  promise: the attempt in progress stays the one there was, and its cancelled flag is
  cleared.
\<close>

theorem onHoverStart_single_attempt:
  assumes "reachable s"
  shows "length (attemptsInProgress s) \<le> 1 \<and>
         attemptsInProgress s = (if isPlayAttemptInProgress s then [playPromise s] else []) \<and>
         (isPlayAttemptInProgress s \<longrightarrow>
            playCalls (video (onHoverStart p vs s)) = playCalls (video s) \<and>
            promises (onHoverStart p vs s) = promises s \<and>
            playPromise (onHoverStart p vs s) = playPromise s \<and>
            attemptsInProgress (onHoverStart p vs s) = [playPromise s] \<and>
            isPlayAttemptInProgress (onHoverStart p vs s) \<and>
            \<not> isPlayAttemptCancelled (onHoverStart p vs s))"
proof -
  from assms have inv: "trackedInv s" by (rule reachable_trackedInv)
  then have one: "attemptsInProgress s = (if isPlayAttemptInProgress s then [playPromise s] else [])"
    by (rule attemptsInProgress_tracked)
  have again: "attemptsInProgress (onHoverStart p vs s) =
      (if isPlayAttemptInProgress (onHoverStart p vs s) then [playPromise (onHoverStart p vs s)] else [])"
    using inv by (intro attemptsInProgress_tracked trackedInv_onHoverStart)
  have keep: "isPlayAttemptInProgress s \<Longrightarrow>
      playCalls (video (onHoverStart p vs s)) = playCalls (video s) \<and>
      promises (onHoverStart p vs s) = promises s \<and>
      playPromise (onHoverStart p vs s) = playPromise s \<and>
      isPlayAttemptInProgress (onHoverStart p vs s) \<and>
      \<not> isPlayAttemptCancelled (onHoverStart p vs s)"
    by (simp add: onHoverStart_def Let_def)
  from one again keep show ?thesis by simp
qed

theorem onHoverStart_single_attempt_witness:
  "reachable (step defaultProps (mount (freshVideo True ''a.mp4'')) (HoverStart VIDEO_paused)) \<and>
   isPlayAttemptInProgress (step defaultProps (mount (freshVideo True ''a.mp4'')) (HoverStart VIDEO_paused)) \<and>
   playCalls (video (step defaultProps (mount (freshVideo True ''a.mp4'')) (HoverStart VIDEO_paused))) = 1 \<and>
   playCalls (video (onHoverStart defaultProps VIDEO_other
      (step defaultProps (mount (freshVideo True ''a.mp4'')) (HoverStart VIDEO_paused)))) = 1 \<and>
   attemptsInProgress (onHoverStart defaultProps VIDEO_other
      (step defaultProps (mount (freshVideo True ''a.mp4'')) (HoverStart VIDEO_paused))) = [1]"
proof -
  let ?s = "step defaultProps (mount (freshVideo True ''a.mp4'')) (HoverStart VIDEO_paused)"
  have r: "reachable ?s" by (intro reachable.intros)
  have i: "isPlayAttemptInProgress ?s" "playCalls (video ?s) = 1" "playPromise ?s = 1"
    by (simp_all add: onHoverStart_def playVideo_def mount_def freshVideo_def defaultProps_def Let_def)
  from onHoverStart_single_attempt [OF r, of defaultProps VIDEO_other] r i show ?thesis
    by simp
qed

subsection \<open>onHoverEnd, onHoverStart on a playing video, pauseVideo\<close>

text \<open>
  \<^bold>\<open>C5.\<close> \<open>onHoverEnd\<close> cancels the loading-state timer and the pending pause timer.
  When \<open>isFocused\<close> is set or the video reports paused it does nothing else. Otherwise it
  sets the phase to \<open>paused\<close> and sets a pause timer whose delay is
  \<open>overlayFadeTransitionDuration\<close> when a paused overlay is given and 0 when not; when
  that timer fires, \<open>pauseVideo\<close> runs.
\<close>

theorem onHoverEnd_spec:
  "loadingStateTimeout (onHoverEnd p vs s) = None \<and>
   onHoverEnd p vs s =
     (if isFocused p \<or> vs = VIDEO_paused
      then s\<lparr>loadingStateTimeout := None, pauseTimeout := None\<rparr>
      else s\<lparr>loadingStateTimeout := None, overlayState := paused,
             pauseTimeout := Some (if pausedOverlay p then overlayFadeTransitionDuration p else 0)\<rparr>) \<and>
   pauseTimeoutFires p (onHoverEnd p vs s) =
     (if isFocused p \<or> vs = VIDEO_paused then onHoverEnd p vs s
      else pauseVideo p ((onHoverEnd p vs s)\<lparr>pauseTimeout := None\<rparr>))"
  by (simp add: onHoverEnd_def pauseTimeoutFires_def Let_def)

text \<open>
  \<^bold>\<open>C6.\<close> When the video reports that it is playing, \<open>onHoverStart\<close> clears the timers
  and the cancelled flag, sets the phase to \<open>playing\<close> and returns: no loading-state timer
  is set, \<open>play()\<close> is not called and no promise is made.
\<close>

theorem onHoverStart_already_playing:
  "onHoverStart p VIDEO_playing s =
     s\<lparr>pauseTimeout := None, loadingStateTimeout := None, isPlayAttemptCancelled := False,
       overlayState := playing\<rparr> \<and>
   overlayState (onHoverStart p VIDEO_playing s) = playing \<and>
   loadingStateTimeout (onHoverStart p VIDEO_playing s) = None \<and>
   playCalls (video (onHoverStart p VIDEO_playing s)) = playCalls (video s) \<and>
   promises (onHoverStart p VIDEO_playing s) = promises s \<and>
   playPromise (onHoverStart p VIDEO_playing s) = playPromise s \<and>
   isPlayAttemptInProgress (onHoverStart p VIDEO_playing s) = isPlayAttemptInProgress s"
  by (simp add: onHoverStart_def Let_def)

text \<open>
  \<^bold>\<open>C8.\<close> When no play attempt is in progress, \<open>pauseVideo\<close> calls \<open>pause()\<close> once, and
  \<open>currentTime\<close> is 0 afterwards when \<open>shouldRestartOnVideoStopped\<close> is set and what it was
  when it is not.
\<close>

theorem pauseVideo_restart:
  assumes "\<not> isPlayAttemptInProgress s"
  shows "pauseCalls (video (pauseVideo p s)) = Suc (pauseCalls (video s)) \<and>
         currentTime (video (pauseVideo p s)) =
           (if shouldRestartOnVideoStopped p then 0 else currentTime (video s))"
  using assms by (simp add: pauseVideo_def Let_def)

theorem pauseVideo_restart_witness:
  "\<not> isPlayAttemptInProgress (mount ((freshVideo True ''a.mp4'')\<lparr>currentTime := 5 / 2\<rparr>)) \<and>
   currentTime (video (pauseVideo defaultProps
      (mount ((freshVideo True ''a.mp4'')\<lparr>currentTime := 5 / 2\<rparr>)))) = 0 \<and>
   currentTime (video (pauseVideo (defaultProps\<lparr>shouldRestartOnVideoStopped := False\<rparr>)
      (mount ((freshVideo True ''a.mp4'')\<lparr>currentTime := 5 / 2\<rparr>)))) = 5 / 2"
proof -
  let ?s = "mount ((freshVideo True ''a.mp4'')\<lparr>currentTime := 5 / 2\<rparr>)"
  have n: "\<not> isPlayAttemptInProgress ?s" by (simp add: mount_def)
  from pauseVideo_restart [OF n, of defaultProps]
    pauseVideo_restart [OF n, of "defaultProps\<lparr>shouldRestartOnVideoStopped := False\<rparr>"] n
  show ?thesis by (simp add: defaultProps_def mount_def freshVideo_def)
qed

subsection \<open>The asset parser\<close>

text \<open>
  \<^bold>\<open>C9.\<close> A single string becomes a one-element list whose element has the string as its
  \<open>src\<close>; an array of N elements becomes a list of N elements, in the order of the input,
  each in the canonical shape.
\<close>

theorem formatVideoSrc_shapes:
  "formatVideoSrc (Single (SourceString u)) = [\<lparr>src = u, type = None\<rparr>] \<and>
   formatVideoCaptions (Single (CaptionsString u)) =
     [\<lparr>trackSrc = u, srcLang = None, label = None\<rparr>] \<and>
   length (formatVideoSrc (Array xs)) = length xs \<and>
   map src (formatVideoSrc (Array xs)) = map sourceUrl xs \<and>
   length (formatVideoCaptions (Array ys)) = length ys \<and>
   map trackSrc (formatVideoCaptions (Array ys)) = map captionsUrl ys"
proof -
  have "src (normalizeSource x) = sourceUrl x" for x by (cases x) simp_all
  moreover have "trackSrc (normalizeCaptions y) = captionsUrl y" for y by (cases y) simp_all
  ultimately show ?thesis by simp
qed

subsection \<open>A rejected play promise\<close>

text \<open>
  \<^bold>\<open>C2.\<close> The claim: when the play promise rejects, the failure is logged, the phase goes
  back to \<open>paused\<close> and \<open>playing\<close> is never entered. The code at the hover-start of a
  paused video whose \<open>play()\<close> then rejects: the failure is logged and the video paused by
  the \<open>.catch\<close> callback, and the \<open>.then\<close> callback chained after it sets the phase to
  \<open>playing\<close>.
\<close>

theorem play_rejected_ends_playing:
  "overlayState (run defaultProps (mount (freshVideo True ''a.mp4''))
      [HoverStart VIDEO_paused, PlaySettled 1 (Reject ''NotAllowedError'')]) = playing \<and>
   consoleErrors (run defaultProps (mount (freshVideo True ''a.mp4''))
      [HoverStart VIDEO_paused, PlaySettled 1 (Reject ''NotAllowedError'')]) =
      [''HoverVideoPlayer playback failed for src a.mp4: NotAllowedError''] \<and>
   pauseCalls (video (run defaultProps (mount (freshVideo True ''a.mp4''))
      [HoverStart VIDEO_paused, PlaySettled 1 (Reject ''NotAllowedError'')])) = 1"
  by (simp add: run_def onHoverStart_def playVideo_def settle_def runReactions_def playThen_def
      playCatch_def pauseVideo_def settlementOf_def mount_def freshVideo_def defaultProps_def Let_def)

subsection \<open>The promise that playVideo returns\<close>

lemma promises_onVideoPlaybackStarted:
  "promises (onVideoPlaybackStarted p s pid) = promises (settle p pid Resolve s)"
  by (simp add: onVideoPlaybackStarted_def Let_def)

lemma promises_onVideoPlaybackFailed:
  "promises (onVideoPlaybackFailed p err s pid) = promises (settle p pid (Reject err) s)"
  by (simp add: onVideoPlaybackFailed_def Let_def)

lemma foldl_onVideoPlaybackStarted:
  "i < length (promises s) \<Longrightarrow>
   length (promises (foldl (onVideoPlaybackStarted p) s ls)) = length (promises s) \<and>
   settled (promises (foldl (onVideoPlaybackStarted p) s ls) ! i) =
     (if i \<in> set ls \<and> settled (promises s ! i) = Pending then Fulfilled
      else settled (promises s ! i))"
proof (induction ls arbitrary: s)
  case Nil
  then show ?case by simp
next
  case (Cons x ls)
  let ?t = "onVideoPlaybackStarted p s x"
  have len: "length (promises ?t) = length (promises s)"
    by (simp add: promises_onVideoPlaybackStarted)
  have st: "settled (promises ?t ! i) =
      (if i = x \<and> settled (promises s ! i) = Pending then Fulfilled else settled (promises s ! i))"
    using Cons.prems by (auto simp: promises_onVideoPlaybackStarted settled_settle settlementOf_def)
  from Cons.prems len have "i < length (promises ?t)" by simp
  from Cons.IH [OF this] len st show ?case by auto
qed

lemma foldl_onVideoPlaybackFailed:
  "i < length (promises s) \<Longrightarrow>
   length (promises (foldl (onVideoPlaybackFailed p err) s ls)) = length (promises s) \<and>
   settled (promises (foldl (onVideoPlaybackFailed p err) s ls) ! i) =
     (if i \<in> set ls \<and> settled (promises s ! i) = Pending then Rejected err
      else settled (promises s ! i))"
proof (induction ls arbitrary: s)
  case Nil
  then show ?case by simp
next
  case (Cons x ls)
  let ?t = "onVideoPlaybackFailed p err s x"
  have len: "length (promises ?t) = length (promises s)"
    by (simp add: promises_onVideoPlaybackFailed)
  have st: "settled (promises ?t ! i) =
      (if i = x \<and> settled (promises s ! i) = Pending then Rejected err else settled (promises s ! i))"
    using Cons.prems by (auto simp: promises_onVideoPlaybackFailed settled_settle settlementOf_def)
  from Cons.prems len have "i < length (promises ?t)" by simp
  from Cons.IH [OF this] len st show ?case by auto
qed

lemma playVideo_result:
  "fst (playVideo s) = length (promises s)"
  "promises (snd (playVideo s)) =
     promises s @ [\<lparr>settled = Pending, native = playReturnsThenable (video s), reactions = False\<rparr>]"
  "playPromise (snd (playVideo s)) = length (promises s)"
  "isPlayAttemptInProgress (snd (playVideo s))"
  "playCalls (video (snd (playVideo s))) = Suc (playCalls (video s))"
  "playingListeners (video (snd (playVideo s))) =
     (if playReturnsThenable (video s) then playingListeners (video s)
      else playingListeners (video s) @ [length (promises s)])"
  "errorListeners (video (snd (playVideo s))) =
     (if playReturnsThenable (video s) then errorListeners (video s)
      else errorListeners (video s) @ [length (promises s)])"
  by (simp_all add: playVideo_def Let_def)

text \<open>
  \<^bold>\<open>C10.\<close> \<open>playVideo\<close> always returns a promise, a new and pending one that it also
  stores in \<open>playPromise\<close>. When \<open>play()\<close> returned a thenable the browser settles it.
  When it did not, the promise is fulfilled once the element fires \<open>'playing'\<close> and
  rejected with the event's error once the element fires \<open>'error'\<close>.
\<close>

theorem playVideo_returns_promise:
  "fst (playVideo s) = length (promises s) \<and>
   length (promises (snd (playVideo s))) = Suc (fst (playVideo s)) \<and>
   playPromise (snd (playVideo s)) = fst (playVideo s) \<and>
   settled (promises (snd (playVideo s)) ! fst (playVideo s)) = Pending \<and>
   (if playReturnsThenable (video s)
    then settled (promises (step p (snd (playVideo s)) (PlaySettled (fst (playVideo s)) out))
           ! fst (playVideo s)) = settlementOf out
    else settled (promises (step p (snd (playVideo s)) MediaPlaying) ! fst (playVideo s)) = Fulfilled \<and>
         settled (promises (step p (snd (playVideo s)) (MediaError err)) ! fst (playVideo s))
           = Rejected err)"
proof -
  let ?s = "snd (playVideo s)" and ?n = "length (promises s)"
  have lt: "?n < length (promises ?s)" by (simp add: playVideo_result)
  have pend: "settled (promises ?s ! ?n) = Pending" by (simp add: playVideo_result)
  have nat: "playReturnsThenable (video s) \<Longrightarrow> native (promises ?s ! ?n)"
    by (simp add: playVideo_result)
  have a: "playReturnsThenable (video s) \<Longrightarrow>
      settled (promises (step p ?s (PlaySettled ?n out)) ! ?n) = settlementOf out"
    using lt pend nat by (simp add: settled_settle)
  have b: "\<not> playReturnsThenable (video s) \<Longrightarrow>
      settled (promises (step p ?s MediaPlaying) ! ?n) = Fulfilled"
    using foldl_onVideoPlaybackStarted [OF lt, of p "playingListeners (video ?s)"] pend
    by (simp add: firePlaying_def playVideo_result)
  have c: "\<not> playReturnsThenable (video s) \<Longrightarrow>
      settled (promises (step p ?s (MediaError err)) ! ?n) = Rejected err"
    using foldl_onVideoPlaybackFailed [OF lt, of p err "errorListeners (video ?s)"] pend
    by (simp add: fireError_def playVideo_result)
  from a b c pend show ?thesis by (simp add: playVideo_result)
qed

subsection \<open>Unmount\<close>

lemma cancelledInv_settle: "cancelledInv s \<Longrightarrow> cancelledInv (settle p pid out s)"
  unfolding cancelledInv_def
  by (auto simp: attemptInProgress_settle isPlayAttemptInProgress_settle
      isPlayAttemptCancelled_settle)

lemma tornDown_settle: "tornDown c s \<Longrightarrow> tornDown c (settle p pid out s)"
  using cancelledInv_settle [of s p pid out]
  by (auto simp: tornDown_def loadingStateTimeout_settle overlayState_settle cancelledInv_def)

lemma tornDown_video: "tornDown c s \<Longrightarrow> tornDown c (s\<lparr>video := v\<rparr>)"
  by (simp add: tornDown_def cancelledInv_def attemptInProgress_def)

lemma tornDown_started: "tornDown c s \<Longrightarrow> tornDown c (onVideoPlaybackStarted p s pid)"
  by (simp add: onVideoPlaybackStarted_def Let_def tornDown_video tornDown_settle)

lemma tornDown_failed: "tornDown c s \<Longrightarrow> tornDown c (onVideoPlaybackFailed p err s pid)"
  by (simp add: onVideoPlaybackFailed_def Let_def tornDown_video tornDown_settle)

lemma tornDown_step: "tornDown c s \<Longrightarrow> \<not> isHover e \<Longrightarrow> tornDown c (step p s e)"
proof (cases e)
  case MediaPlaying
  assume "tornDown c s"
  then have "tornDown c (foldl (onVideoPlaybackStarted p) s (playingListeners (video s)))"
    by (rule foldl_preserves [rotated]) (rule tornDown_started)
  with MediaPlaying show ?thesis by (simp add: firePlaying_def)
next
  case (MediaError err)
  assume "tornDown c s"
  then have "tornDown c (foldl (onVideoPlaybackFailed p err) s (errorListeners (video s)))"
    by (rule foldl_preserves [rotated]) (rule tornDown_failed)
  with MediaError show ?thesis by (simp add: fireError_def)
next
  case (PlaySettled pid out)
  assume "tornDown c s"
  with PlaySettled show ?thesis by (simp add: tornDown_settle)
next
  case Unmount
  assume "tornDown c s"
  with Unmount show ?thesis
    by (simp add: tornDown_def unmount_def cancelledInv_def attemptInProgress_def)
qed (simp_all add: tornDown_def loadingStateTimeoutFires_def pauseTimeoutFires_def)

lemma tornDown_phases:
  "tornDown c s \<Longrightarrow> list_all (\<lambda>e. \<not> isHover e) es \<Longrightarrow> set (phases p s es) \<subseteq> {c}"
proof (induction es arbitrary: s)
  case Nil
  then show ?case by simp
next
  case (Cons e es)
  then have t: "tornDown c (step p s e)" by (simp add: tornDown_step)
  then have "overlayState (step p s e) = c" by (simp add: tornDown_def)
  with Cons t show ?case by simp
qed

lemma tornDown_unmount: "trackedInv s \<Longrightarrow> tornDown (overlayState s) (unmount s)"
  by (simp add: tornDown_def cancelledInv_def trackedInv_def unmount_def attemptInProgress_def)

text \<open>
  \<^bold>\<open>C7.\<close> The cleanup cancels the loading-state timer and the pause timer and sets the
  cancelled flag. After it no settling of a play promise (by the browser or by a
  \<open>'playing'\<close> or \<open>'error'\<close> event) and no timer changes the phase.
\<close>

theorem unmount_cancels:
  assumes "reachable s" and "list_all (\<lambda>e. \<not> isHover e) es"
  shows "loadingStateTimeout (unmount s) = None \<and> pauseTimeout (unmount s) = None \<and>
         isPlayAttemptCancelled (unmount s) \<and> overlayState (unmount s) = overlayState s \<and>
         set (phases p (unmount s) es) \<subseteq> {overlayState s}"
proof -
  from assms(1) have "tornDown (overlayState s) (unmount s)"
    by (intro tornDown_unmount reachable_trackedInv)
  from tornDown_phases [OF this assms(2)] show ?thesis by (simp add: unmount_def)
qed

theorem unmount_cancels_witness:
  "reachable (step defaultProps (mount (freshVideo True ''a.mp4'')) (HoverStart VIDEO_paused)) \<and>
   list_all (\<lambda>e. \<not> isHover e) [PlaySettled 1 Resolve, LoadingStateTimeout, PauseTimeout] \<and>
   isPlayAttemptInProgress (step defaultProps (mount (freshVideo True ''a.mp4'')) (HoverStart VIDEO_paused)) \<and>
   isPlayAttemptCancelled
     (unmount (step defaultProps (mount (freshVideo True ''a.mp4'')) (HoverStart VIDEO_paused))) \<and>
   set (phases defaultProps
     (unmount (step defaultProps (mount (freshVideo True ''a.mp4'')) (HoverStart VIDEO_paused)))
     [PlaySettled 1 Resolve, LoadingStateTimeout, PauseTimeout]) \<subseteq> {paused}"
proof -
  let ?s = "step defaultProps (mount (freshVideo True ''a.mp4'')) (HoverStart VIDEO_paused)"
  let ?es = "[PlaySettled 1 Resolve, LoadingStateTimeout, PauseTimeout]"
  have r: "reachable ?s" by (intro reachable.intros)
  have l: "list_all (\<lambda>e. \<not> isHover e) ?es" by simp
  have i: "isPlayAttemptInProgress ?s" "overlayState ?s = paused"
    by (simp_all add: onHoverStart_def playVideo_def mount_def freshVideo_def defaultProps_def Let_def)
  from unmount_cancels [OF r l, of defaultProps] r l i show ?thesis
    by simp
qed

subsection \<open>A hover-end while an attempt is in progress\<close>

lemma awaitingCancelled_step:
  "awaitingCancelled pid s \<Longrightarrow> hoverEndOrTimer e \<Longrightarrow> awaitingCancelled pid (step p s e)"
  by (cases e)
     (auto simp: awaitingCancelled_def onHoverEnd_def loadingStateTimeoutFires_def
       pauseTimeoutFires_def pauseVideo_def attemptInProgress_def Let_def split: option.splits)

lemma awaitingCancelled_run:
  "awaitingCancelled pid s \<Longrightarrow> list_all hoverEndOrTimer es \<Longrightarrow>
   awaitingCancelled pid (run p s es) \<and> set (phases p s es) \<subseteq> {paused}"
proof (induction es arbitrary: s)
  case Nil
  then show ?case by (simp add: run_def)
next
  case (Cons e es)
  then have t: "awaitingCancelled pid (step p s e)" by (simp add: awaitingCancelled_step)
  then have "overlayState (step p s e) = paused" by (simp add: awaitingCancelled_def)
  with Cons t show ?case by (simp add: run_def)
qed

lemma awaitingCancelled_settle:
  assumes "awaitingCancelled pid s"
  shows "overlayState (settle p pid out s) = paused"
    and "\<not> isPlayAttemptInProgress (settle p pid out s)"
    and "\<not> isPlayAttemptCancelled (settle p pid out s)"
    and "attemptsInProgress (settle p pid out s) = filter (\<lambda>i. i \<noteq> pid) (attemptsInProgress s)"
    and "pauseCalls (video s) < pauseCalls (video (settle p pid out s))"
proof -
  show "attemptsInProgress (settle p pid out s) = filter (\<lambda>i. i \<noteq> pid) (attemptsInProgress s)"
    by (simp add: attemptsInProgress_def attemptInProgress_settle [abs_def] conj_commute)
  from assms show "overlayState (settle p pid out s) = paused"
    by (simp add: awaitingCancelled_def overlayState_settle)
  from assms show "\<not> isPlayAttemptInProgress (settle p pid out s)"
    by (simp add: awaitingCancelled_def isPlayAttemptInProgress_settle)
  from assms show "\<not> isPlayAttemptCancelled (settle p pid out s)"
    by (simp add: awaitingCancelled_def isPlayAttemptCancelled_settle)
  from assms show "pauseCalls (video s) < pauseCalls (video (settle p pid out s))"
    by (cases out)
       (simp_all add: awaitingCancelled_def attemptInProgress_def settle_def runReactions_def
         playThen_def playCatch_def pauseVideo_def Let_def)
qed

text \<open>
  \<^bold>\<open>C1.\<close> The claim as stated, "for every event sequence in which \<open>onHoverEnd\<close> is issued
  while a play attempt is in progress, the phase is \<open>paused\<close> once the promise settles and
  \<open>playing\<close> is never entered", fails where the code is told to keep playing: after a
  second \<open>onHoverStart\<close> before the promise settles (line 186 clears the cancelled flag),
  and with \<open>isFocused\<close> set (line 246 makes \<open>onHoverEnd\<close> ignore the event). In both
  runs below the attempt is in progress at the hover-end and the phase ends \<open>playing\<close>.
\<close>

theorem hoverEnd_then_playing:
  "isPlayAttemptInProgress
     (run defaultProps (mount (freshVideo True ''a.mp4'')) [HoverStart VIDEO_paused]) \<and>
   phases defaultProps (mount (freshVideo True ''a.mp4''))
     [HoverStart VIDEO_paused, HoverEnd VIDEO_other, HoverStart VIDEO_other, PlaySettled 1 Resolve]
     = [paused, paused, paused, playing] \<and>
   isPlayAttemptInProgress
     (run focusedProps (mount (freshVideo True ''a.mp4'')) [HoverStart VIDEO_paused]) \<and>
   phases focusedProps (mount (freshVideo True ''a.mp4''))
     [HoverStart VIDEO_paused, HoverEnd VIDEO_other, PlaySettled 1 Resolve]
     = [paused, paused, playing]"
  by code_simp

text \<open>
  \<^bold>\<open>C1, as amended.\<close> In a reachable state with an attempt in progress, let \<open>onHoverEnd\<close>
  be called with \<open>isFocused\<close> unset and the video not reporting paused, let the pause timer
  it sets fire, and let only hover-ends and timers follow before the attempt's promise
  settles. Then the phase is \<open>paused\<close> after each of these events, the attempt is marked
  cancelled, and when its promise settles, fulfilled or rejected, the phase is still
  \<open>paused\<close>, no attempt is in progress and \<open>pause()\<close> has been called.
\<close>

theorem hoverEnd_cancels_attempt:
  assumes "reachable s" and "isPlayAttemptInProgress s"
    and "\<not> isFocused p" and "vs \<noteq> VIDEO_paused"
    and "list_all hoverEndOrTimer es"
  shows "set (phases p s (HoverEnd vs # PauseTimeout # es)) \<subseteq> {paused} \<and>
         isPlayAttemptCancelled (run p s (HoverEnd vs # PauseTimeout # es)) \<and>
         attemptsInProgress (run p s (HoverEnd vs # PauseTimeout # es)) = [playPromise s] \<and>
         overlayState (settle p (playPromise s) out (run p s (HoverEnd vs # PauseTimeout # es))) = paused \<and>
         attemptsInProgress (settle p (playPromise s) out (run p s (HoverEnd vs # PauseTimeout # es))) = [] \<and>
         \<not> isPlayAttemptInProgress (settle p (playPromise s) out (run p s (HoverEnd vs # PauseTimeout # es))) \<and>
         pauseCalls (video (run p s (HoverEnd vs # PauseTimeout # es)))
           < pauseCalls (video (settle p (playPromise s) out (run p s (HoverEnd vs # PauseTimeout # es))))"
proof -
  define s1 where "s1 = step p s (HoverEnd vs)"
  define s2 where "s2 = step p s1 PauseTimeout"
  define t where "t = run p s (HoverEnd vs # PauseTimeout # es)"
  define pid where "pid = playPromise s"
  from assms(1) have "trackedInv s" by (rule reachable_trackedInv)
  with assms(2) have cur: "attemptInProgress s pid" by (simp add: trackedInv_def pid_def)
  from assms(3,4) have p1: "overlayState s1 = paused"
    by (simp add: s1_def onHoverEnd_def Let_def)
  from cur assms(2-4) have a2: "awaitingCancelled pid s2"
    by (simp add: s2_def s1_def awaitingCancelled_def onHoverEnd_def pauseTimeoutFires_def
        pauseVideo_def attemptInProgress_def Let_def)
  then have p2: "overlayState s2 = paused" by (simp add: awaitingCancelled_def)
  have t: "t = run p s2 es" by (simp add: t_def s2_def s1_def run_def)
  from awaitingCancelled_run [OF a2 assms(5), of p]
  have a3: "awaitingCancelled pid t" and ph: "set (phases p s2 es) \<subseteq> {paused}"
    by (simp_all add: t)
  have "phases p s (HoverEnd vs # PauseTimeout # es) =
      overlayState s1 # overlayState s2 # phases p s2 es"
    by (simp only: phases.simps s1_def s2_def)
  with p1 p2 ph have all_paused: "set (phases p s (HoverEnd vs # PauseTimeout # es)) \<subseteq> {paused}"
    by simp
  have "reachable t" unfolding t_def run_def using assms(1)
    by (rule foldl_preserves [rotated]) (rule reachable_step)
  then have inv_t: "trackedInv t" by (rule reachable_trackedInv)
  from a3 have in_t: "isPlayAttemptInProgress t" "attemptInProgress t pid" "isPlayAttemptCancelled t"
    by (simp_all add: awaitingCancelled_def)
  from inv_t in_t(2) have "pid = playPromise t" by (simp add: trackedInv_def)
  with attemptsInProgress_tracked [OF inv_t] in_t(1) have att: "attemptsInProgress t = [pid]"
    by simp
  note st = awaitingCancelled_settle [OF a3, of p out]
  from st(4) att have "attemptsInProgress (settle p pid out t) = []" by simp
  with all_paused in_t(3) att st(1,2,5) show ?thesis
    unfolding t_def [symmetric] pid_def [symmetric] by (intro conjI)
qed

theorem hoverEnd_cancels_attempt_witness:
  "reachable (step overlayProps (mount (freshVideo True ''a.mp4'')) (HoverStart VIDEO_paused)) \<and>
   isPlayAttemptInProgress (step overlayProps (mount (freshVideo True ''a.mp4'')) (HoverStart VIDEO_paused)) \<and>
   \<not> isFocused overlayProps \<and> VIDEO_other \<noteq> VIDEO_paused \<and>
   list_all hoverEndOrTimer [LoadingStateTimeout, HoverEnd VIDEO_paused] \<and>
   set (phases overlayProps (step overlayProps (mount (freshVideo True ''a.mp4'')) (HoverStart VIDEO_paused))
     [HoverEnd VIDEO_other, PauseTimeout, LoadingStateTimeout, HoverEnd VIDEO_paused]) \<subseteq> {paused} \<and>
   overlayState (settle overlayProps 1 Resolve
     (run overlayProps (step overlayProps (mount (freshVideo True ''a.mp4'')) (HoverStart VIDEO_paused))
       [HoverEnd VIDEO_other, PauseTimeout, LoadingStateTimeout, HoverEnd VIDEO_paused])) = paused"
proof -
  let ?s = "step overlayProps (mount (freshVideo True ''a.mp4'')) (HoverStart VIDEO_paused)"
  have r: "reachable ?s" by (intro reachable.intros)
  have i: "isPlayAttemptInProgress ?s" by code_simp
  have f: "\<not> isFocused overlayProps" by code_simp
  have v: "VIDEO_other \<noteq> VIDEO_paused" by simp
  have l: "list_all hoverEndOrTimer [LoadingStateTimeout, HoverEnd VIDEO_paused]" by simp
  have pp: "playPromise ?s = 1" by code_simp
  note th = hoverEnd_cancels_attempt [OF r i f v l, of Resolve, unfolded pp]
  from th r i f v l show ?thesis by blast
qed

text \<open>
  The hypothesis that the pause timer fires before the promise settles is needed: the
  cancelled flag is set by \<open>pauseVideo\<close>, which \<open>onHoverEnd\<close> only schedules. With a paused
  overlay the timer fires after \<open>overlayFadeTransitionDuration\<close>; a promise fulfilled in
  between finds the flag unset and sets the phase to \<open>playing\<close>, and the timer then pauses
  the video without changing the phase.
\<close>

lemma settled_before_pause_timer:
  "phases overlayProps (mount (freshVideo True ''a.mp4''))
     [HoverStart VIDEO_paused, HoverEnd VIDEO_other, PlaySettled 1 Resolve, PauseTimeout]
     = [paused, paused, playing, playing] \<and>
   pauseCalls (video (run overlayProps (mount (freshVideo True ''a.mp4''))
     [HoverStart VIDEO_paused, HoverEnd VIDEO_other, PlaySettled 1 Resolve, PauseTimeout])) = 1"
  by code_simp

subsection \<open>Hover-start, then hover-end before the loading-state timer fires\<close>

lemma loadingOff_settle: "loadingOff s \<Longrightarrow> loadingOff (settle p pid out s)"
  by (simp add: loadingOff_def loadingStateTimeout_settle overlayState_settle)

lemma loadingOff_video: "loadingOff s \<Longrightarrow> loadingOff (s\<lparr>video := v\<rparr>)"
  by (simp add: loadingOff_def)

lemma loadingOff_started: "loadingOff s \<Longrightarrow> loadingOff (onVideoPlaybackStarted p s pid)"
  by (simp add: onVideoPlaybackStarted_def Let_def loadingOff_video loadingOff_settle)

lemma loadingOff_failed: "loadingOff s \<Longrightarrow> loadingOff (onVideoPlaybackFailed p err s pid)"
  by (simp add: onVideoPlaybackFailed_def Let_def loadingOff_video loadingOff_settle)

lemma loadingOff_step: "loadingOff s \<Longrightarrow> \<not> isHoverStart e \<Longrightarrow> loadingOff (step p s e)"
proof (cases e)
  case MediaPlaying
  assume "loadingOff s"
  then have "loadingOff (foldl (onVideoPlaybackStarted p) s (playingListeners (video s)))"
    by (rule foldl_preserves [rotated]) (rule loadingOff_started)
  with MediaPlaying show ?thesis by (simp add: firePlaying_def)
next
  case (MediaError err)
  assume "loadingOff s"
  then have "loadingOff (foldl (onVideoPlaybackFailed p err) s (errorListeners (video s)))"
    by (rule foldl_preserves [rotated]) (rule loadingOff_failed)
  with MediaError show ?thesis by (simp add: fireError_def)
next
  case (PlaySettled pid out)
  assume "loadingOff s"
  with PlaySettled show ?thesis by (simp add: loadingOff_settle)
qed (auto simp: loadingOff_def onHoverEnd_def loadingStateTimeoutFires_def pauseTimeoutFires_def
      unmount_def Let_def split: option.splits)

lemma loadingOff_phases:
  "loadingOff s \<Longrightarrow> list_all (\<lambda>e. \<not> isHoverStart e) es \<Longrightarrow> loading \<notin> set (phases p s es)"
proof (induction es arbitrary: s)
  case Nil
  then show ?case by simp
next
  case (Cons e es)
  then have t: "loadingOff (step p s e)" by (simp add: loadingOff_step)
  then have "overlayState (step p s e) \<noteq> loading" by (simp add: loadingOff_def)
  with Cons t show ?case by simp
qed

text \<open>
  \<^bold>\<open>C4.\<close> The claim as stated, "after \<open>onHoverStart\<close> followed by \<open>onHoverEnd\<close> before the
  loading-state timer fires, \<open>loading\<close> is never entered and the final phase is \<open>paused\<close>",
  fails in its second half when \<open>isFocused\<close> is set: \<open>onHoverEnd\<close> then only cancels the
  timers (line 246), so the attempt goes on and ends in \<open>playing\<close>, and a hover-start and
  hover-end on a video that already plays leave the phase \<open>playing\<close>.
\<close>

theorem hoverStart_hoverEnd_focused:
  "phases focusedProps (mount (freshVideo True ''a.mp4''))
     [HoverStart VIDEO_paused, HoverEnd VIDEO_other, PlaySettled 1 Resolve]
     = [paused, paused, playing] \<and>
   phases focusedProps (mount (freshVideo True ''a.mp4''))
     [HoverStart VIDEO_paused, PlaySettled 1 Resolve, HoverStart VIDEO_playing, HoverEnd VIDEO_playing]
     = [paused, playing, playing, playing]"
  by code_simp

text \<open>
  \<^bold>\<open>C4, as amended.\<close> Let the phase not be \<open>loading\<close>, and let \<open>onHoverStart\<close> be followed
  by \<open>onHoverEnd\<close> with no loading-state timer firing in between. Then \<open>loading\<close> is not
  entered, by these two calls or by any later event before the next \<open>onHoverStart\<close>, and
  no loading-state timer is pending after the hover-end. The phase right after the
  hover-end is \<open>paused\<close> exactly when \<open>isFocused\<close> is unset and the video does not report
  paused at the hover-end, or the phase was \<open>paused\<close> before and the video did not report
  playing at the hover-start.
\<close>

theorem hoverStart_hoverEnd_no_loading:
  assumes "overlayState s \<noteq> loading" and "list_all (\<lambda>e. \<not> isHoverStart e) es"
  shows "loading \<notin> set (phases p s (HoverStart vs1 # HoverEnd vs2 # es)) \<and>
         loadingStateTimeout (run p s [HoverStart vs1, HoverEnd vs2]) = None \<and>
         (overlayState (run p s [HoverStart vs1, HoverEnd vs2]) = paused \<longleftrightarrow>
            (\<not> isFocused p \<and> vs2 \<noteq> VIDEO_paused) \<or>
            (vs1 \<noteq> VIDEO_playing \<and> overlayState s = paused))"
proof -
  let ?s1 = "onHoverStart p vs1 s"
  let ?s2 = "onHoverEnd p vs2 ?s1"
  have ph1: "overlayState ?s1 = (if vs1 = VIDEO_playing then playing else overlayState s)"
    by (simp add: onHoverStart_def playVideo_def Let_def split: prod.splits)
  have ph2: "overlayState ?s2 =
      (if isFocused p \<or> vs2 = VIDEO_paused then overlayState ?s1 else paused)"
    and lt: "loadingStateTimeout ?s2 = None"
    by (simp_all add: onHoverEnd_def Let_def)
  from assms(1) ph1 ph2 lt have "loadingOff ?s2" by (simp add: loadingOff_def)
  from loadingOff_phases [OF this assms(2), of p] assms(1) ph1 ph2 lt show ?thesis
    by (auto simp: run_def)
qed

theorem hoverStart_hoverEnd_no_loading_witness:
  "overlayState (mount (freshVideo True ''a.mp4'')) \<noteq> loading \<and>
   list_all (\<lambda>e. \<not> isHoverStart e) [PauseTimeout, PlaySettled 1 Resolve, LoadingStateTimeout] \<and>
   loading \<notin> set (phases overlayProps (mount (freshVideo True ''a.mp4''))
     [HoverStart VIDEO_paused, HoverEnd VIDEO_other, PauseTimeout, PlaySettled 1 Resolve,
      LoadingStateTimeout]) \<and>
   overlayState (run overlayProps (mount (freshVideo True ''a.mp4''))
     [HoverStart VIDEO_paused, HoverEnd VIDEO_other]) = paused"
proof -
  let ?s = "mount (freshVideo True ''a.mp4'')"
  have a: "overlayState ?s \<noteq> loading" by (simp add: mount_def)
  have l: "list_all (\<lambda>e. \<not> isHoverStart e) [PauseTimeout, PlaySettled 1 Resolve, LoadingStateTimeout]"
    by simp
  have f: "\<not> isFocused overlayProps" by code_simp
  have v: "VIDEO_other \<noteq> VIDEO_paused" by simp
  note th = hoverStart_hoverEnd_no_loading [OF a l, of overlayProps VIDEO_paused VIDEO_other]
  from th a l f v show ?thesis by blast
qed

end
